theory Spec2Isabelle
  imports Main
begin

section \<open>Types\<close>

text \<open>
  The three period kinds of \<^verbatim>\<open>PERIODS\<close>, the \<^verbatim>\<open>Item\<close> type and the
  \<^verbatim>\<open>SectionStreaks\<close> type of \<^verbatim>\<open>App.tsx\<close>. JavaScript numbers are modelled as
  \<^typ>\<open>int\<close>: every arithmetic step of the code below (\<open>+ 1\<close>, \<open>- 1\<close>, \<open>Math.min\<close>,
  \<open>Math.max\<close>, \<open>Math.floor\<close>) maps integers to integers.
\<close>

datatype Period = Daily | Weekly | Monthly

record Item =
  item_id :: string
  title :: string
  period :: Period
  count :: int
  target :: int
  item_periodKey :: string
  streak :: int
  bestStreak :: int

record SectionStreaks =
  daily :: int
  weekly :: int
  monthly :: int
  bestDaily :: int
  bestWeekly :: int
  bestMonthly :: int

section \<open>The host's Date object\<close>

text \<open>
  A \<^verbatim>\<open>Date\<close> is modelled by the number of the local calendar day it falls on, counted
  from 1970-01-01 (day 0): the date helpers read only the local year, month and day of
  month of their argument, and \<^verbatim>\<open>getTime()\<close> only of local midnights. The calendar
  functions follow the definitions of ECMA-262 (Day Number, Year Number, Month Number,
  Date Number, Week Day, MakeDay). Days are taken within the range of valid dates, and
  every local day is taken to have a midnight.
\<close>

type_synonym Date = int

definition DaysInYear :: "int \<Rightarrow> int" where
  "DaysInYear y =
     (if y mod 4 \<noteq> 0 then 365
      else if y mod 100 \<noteq> 0 then 366
      else if y mod 400 \<noteq> 0 then 365
      else 366)"

definition DayFromYear :: "int \<Rightarrow> int" where
  "DayFromYear y =
     365 * (y - 1970) + (y - 1969) div 4 - (y - 1901) div 100 + (y - 1601) div 400"

text \<open>
  The year of a day is the largest \<open>y\<close> with \<open>DayFromYear y \<le> n\<close>. It is computed from
  the estimate \<open>1970 + \<lfloor>400 n / 146097\<rfloor>\<close>, which is off by at most one
  (lemmas \<open>YearFromDay_bounds\<close> and \<open>YearFromDay_unique\<close>).
\<close>

definition YearFromDay :: "int \<Rightarrow> int" where
  "YearFromDay n =
     (let y = 1970 + (400 * n) div 146097
      in if n < DayFromYear y then y - 1
         else if DayFromYear (y + 1) \<le> n then y + 1
         else y)"

definition InLeapYear :: "int \<Rightarrow> int" where
  "InLeapYear n = (if DaysInYear (YearFromDay n) = 366 then 1 else 0)"

definition DayWithinYear :: "int \<Rightarrow> int" where
  "DayWithinYear n = n - DayFromYear (YearFromDay n)"

text \<open>The first day within the year of month \<open>m\<close> (0 = January), for leap flag \<open>l\<close>.\<close>

definition MonthStart :: "int \<Rightarrow> int \<Rightarrow> int" where
  "MonthStart l m =
     (if m = 0 then 0
      else if m = 1 then 31
      else if m = 2 then 59 + l
      else if m = 3 then 90 + l
      else if m = 4 then 120 + l
      else if m = 5 then 151 + l
      else if m = 6 then 181 + l
      else if m = 7 then 212 + l
      else if m = 8 then 243 + l
      else if m = 9 then 273 + l
      else if m = 10 then 304 + l
      else 334 + l)"

definition MonthFromDay :: "int \<Rightarrow> int" where
  "MonthFromDay n =
     (let d = DayWithinYear n; l = InLeapYear n
      in if d < 31 then 0
         else if d < 59 + l then 1
         else if d < 90 + l then 2
         else if d < 120 + l then 3
         else if d < 151 + l then 4
         else if d < 181 + l then 5
         else if d < 212 + l then 6
         else if d < 243 + l then 7
         else if d < 273 + l then 8
         else if d < 304 + l then 9
         else if d < 334 + l then 10
         else 11)"

definition DateFromDay :: "int \<Rightarrow> int" where
  "DateFromDay n = DayWithinYear n - MonthStart (InLeapYear n) (MonthFromDay n) + 1"

definition WeekDay :: "int \<Rightarrow> int" where
  "WeekDay n = (n + 4) mod 7"

definition MakeDay :: "int \<Rightarrow> int \<Rightarrow> int \<Rightarrow> int" where
  "MakeDay year month date =
     (let ym = year + month div 12;
          mn = month mod 12
      in DayFromYear ym + MonthStart (if DaysInYear ym = 366 then 1 else 0) mn + date - 1)"

text \<open>The methods of \<^verbatim>\<open>Date\<close> that the source calls.\<close>

definition getFullYear :: "Date \<Rightarrow> int" where
  "getFullYear d = YearFromDay d"

definition getMonth :: "Date \<Rightarrow> int" where
  "getMonth d = MonthFromDay d"

definition getDate :: "Date \<Rightarrow> int" where
  "getDate d = DateFromDay d"

definition getDay :: "Date \<Rightarrow> int" where
  "getDay d = WeekDay d"

text \<open>
  \<^verbatim>\<open>new Date(y, m, d)\<close>: local midnight of the given day; a year from 0 to 99 is taken
  as 1900 + y, as the constructor does.
\<close>

definition newDate :: "int \<Rightarrow> int \<Rightarrow> int \<Rightarrow> Date" where
  "newDate y m d = MakeDay (if 0 \<le> y \<and> y \<le> 99 then 1900 + y else y) m d"

text \<open>\<^verbatim>\<open>date.setDate(dt)\<close>: the day \<open>dt\<close> of the month of \<open>date\<close>, normalised.\<close>

definition setDate :: "Date \<Rightarrow> int \<Rightarrow> Date" where
  "setDate date dt = MakeDay (YearFromDay date) (MonthFromDay date) dt"

text \<open>
  \<^verbatim>\<open>getTime()\<close> of the local midnight of day \<open>n\<close>, in milliseconds since the epoch.
  The host's time zone is the parameter \<open>tz\<close>: \<open>tz n\<close> is the offset of local time from
  UTC, in milliseconds, in force at the local midnight of day \<open>n\<close>.
\<close>

type_synonym TimeZone = "int \<Rightarrow> int"

definition getTime :: "TimeZone \<Rightarrow> Date \<Rightarrow> int" where
  "getTime tz n = n * 86400000 - tz n"

section \<open>Number formatting\<close>

text \<open>The decimal digits of a natural number, and \<^verbatim>\<open>String(n)\<close> of an integer.\<close>

definition digit :: "nat \<Rightarrow> char" where
  "digit d = ''0123456789'' ! d"

fun digits :: "nat \<Rightarrow> string" where
  "digits n = (if n < 10 then [digit n] else digits (n div 10) @ [digit (n mod 10)])"

declare digits.simps [simp del]

definition String :: "int \<Rightarrow> string" where
  "String n = (if n < 0 then CHR ''-'' # digits (nat (- n)) else digits (nat n))"

section \<open>Date helpers\<close>

definition pad :: "int \<Rightarrow> string" where
  "pad n = (if n < 10 then ''0'' @ String n else String n)"

definition getISODate :: "Date \<Rightarrow> string" where
  "getISODate d = String (getFullYear d) @ ''-'' @ pad (getMonth d + 1) @ ''-'' @ pad (getDate d)"

definition getISOWeek :: "TimeZone \<Rightarrow> Date \<Rightarrow> string" where
  "getISOWeek tz d =
     (let date0 = newDate (getFullYear d) (getMonth d) (getDate d);
          day0 = getDay date0;
          day = (if day0 = 0 then 7 else day0);
          date = setDate date0 (getDate date0 + (4 - day));
          yearStart = newDate (getFullYear date) 0 1;
          days = (getTime tz date - getTime tz yearStart) div 86400000 + 1;
          weekNo = - ((- days) div 7)
      in String (getFullYear date) @ ''-W'' @ String weekNo)"

definition getMonthKey :: "Date \<Rightarrow> string" where
  "getMonthKey d = String (getFullYear d) @ ''-'' @ pad (getMonth d + 1)"

definition periodKey :: "TimeZone \<Rightarrow> Period \<Rightarrow> Date \<Rightarrow> string" where
  "periodKey tz p d =
     (case p of
        Daily \<Rightarrow> getISODate d
      | Weekly \<Rightarrow> getISOWeek tz d
      | Monthly \<Rightarrow> getMonthKey d)"

section \<open>Application state\<close>

text \<open>
  The two pieces of React state of \<^verbatim>\<open>MinimalHabitCountersApp\<close> that the rollover and
  the counter operations read and write. A state setter called with an updater function
  is applied to the current state; a handler additionally reads the \<^verbatim>\<open>items\<close> of the
  render in which it was created, which is its first parameter \<open>its\<close> below.
\<close>

record AppState =
  items :: "Item list"
  sectionStreaks :: SectionStreaks

subsection \<open>Rollover\<close>

text \<open>\<^verbatim>\<open>items.some((i) => i.period === p && periodKey(p, now) !== i.periodKey)\<close>\<close>

definition boundary :: "TimeZone \<Rightarrow> Item list \<Rightarrow> Date \<Rightarrow> Period \<Rightarrow> bool" where
  "boundary tz its now p =
     list_ex (\<lambda>i. period i = p \<and> periodKey tz p now \<noteq> item_periodKey i) its"

definition allDone :: "Item list \<Rightarrow> Period \<Rightarrow> bool" where
  "allDone its p =
     (let list = filter (\<lambda>i. period i = p) its
      in if length list = 0 then False
         else list_all (\<lambda>i. count i \<ge> max 1 (target i)) list)"

text \<open>The updater passed to \<^verbatim>\<open>setSectionStreaks\<close>.\<close>

definition updateStreaks ::
  "bool \<Rightarrow> bool \<Rightarrow> bool \<Rightarrow> bool \<Rightarrow> bool \<Rightarrow> bool \<Rightarrow> SectionStreaks \<Rightarrow> SectionStreaks" where
  "updateStreaks boundaryDaily boundaryWeekly boundaryMonthly
                 endedDailyDone endedWeeklyDone endedMonthlyDone s =
     (let daily1 = (if boundaryDaily then (if endedDailyDone then daily s + 1 else 0)
                    else daily s);
          bestDaily1 = (if boundaryDaily then max (bestDaily s) daily1 else bestDaily s);
          weekly1 = (if boundaryWeekly then (if endedWeeklyDone then weekly s + 1 else 0)
                     else weekly s);
          bestWeekly1 = (if boundaryWeekly then max (bestWeekly s) weekly1 else bestWeekly s);
          monthly1 = (if boundaryMonthly then (if endedMonthlyDone then monthly s + 1 else 0)
                      else monthly s);
          bestMonthly1 = (if boundaryMonthly then max (bestMonthly s) monthly1
                          else bestMonthly s)
      in \<lparr>daily = daily1, weekly = weekly1, monthly = monthly1,
          bestDaily = bestDaily1, bestWeekly = bestWeekly1, bestMonthly = bestMonthly1\<rparr>)"

text \<open>The function mapped over the items by the updater passed to \<^verbatim>\<open>setItems\<close>.\<close>

definition resetItem :: "TimeZone \<Rightarrow> Date \<Rightarrow> Item \<Rightarrow> Item" where
  "resetItem tz now it =
     (let currentKey = periodKey tz (period it) now
      in if currentKey \<noteq> item_periodKey it
         then it\<lparr>item_periodKey := currentKey, count := 0\<rparr>
         else it)"

definition rollover :: "TimeZone \<Rightarrow> Item list \<Rightarrow> Date \<Rightarrow> AppState \<Rightarrow> AppState" where
  "rollover tz its now st =
     (let boundaryDaily = boundary tz its now Daily;
          boundaryWeekly = boundary tz its now Weekly;
          boundaryMonthly = boundary tz its now Monthly
      in if \<not> boundaryDaily \<and> \<not> boundaryWeekly \<and> \<not> boundaryMonthly then st
         else
           (let endedDailyDone = (boundaryDaily \<and> allDone its Daily);
                endedWeeklyDone = (boundaryWeekly \<and> allDone its Weekly);
                endedMonthlyDone = (boundaryMonthly \<and> allDone its Monthly)
            in \<lparr>items = map (resetItem tz now) (items st),
                sectionStreaks =
                  updateStreaks boundaryDaily boundaryWeekly boundaryMonthly
                    endedDailyDone endedWeeklyDone endedMonthlyDone (sectionStreaks st)\<rparr>))"

text \<open>
  One rollover check made by a handler of the current render (\<^verbatim>\<open>rollover\<close> is re-created
  at every render in which \<^verbatim>\<open>items\<close> changed): the items it reads are those of the
  state.
\<close>

definition runRolloverCheck :: "TimeZone \<Rightarrow> Date \<Rightarrow> AppState \<Rightarrow> AppState" where
  "runRolloverCheck tz now st = rollover tz (items st) now st"

text \<open>
  Two checks in immediate succession. The listeners for \<^verbatim>\<open>visibilitychange\<close> and
  \<^verbatim>\<open>focus\<close> are registered by one effect and call the \<^verbatim>\<open>rollover\<close> of the same render;
  when both fire before the component renders again, both checks read the items of that
  render, and the updaters they pass to the two setters are applied one after the other.
\<close>

definition rolloverTwice :: "TimeZone \<Rightarrow> Date \<Rightarrow> AppState \<Rightarrow> AppState" where
  "rolloverTwice tz now st = rollover tz (items st) now (rollover tz (items st) now st)"

text \<open>The stored streak and best streak of a period kind.\<close>

definition current :: "SectionStreaks \<Rightarrow> Period \<Rightarrow> int" where
  "current s p = (case p of Daily \<Rightarrow> daily s | Weekly \<Rightarrow> weekly s | Monthly \<Rightarrow> monthly s)"

definition best :: "SectionStreaks \<Rightarrow> Period \<Rightarrow> int" where
  "best s p =
     (case p of Daily \<Rightarrow> bestDaily s | Weekly \<Rightarrow> bestWeekly s | Monthly \<Rightarrow> bestMonthly s)"

subsection \<open>Counter operations\<close>

text \<open>
  \<^verbatim>\<open>updateItem(id, patch)\<close>; the patch \<^verbatim>\<open>{ ...i, ...patch }\<close> is a function on items.
\<close>

definition updateItem :: "string \<Rightarrow> (Item \<Rightarrow> Item) \<Rightarrow> AppState \<Rightarrow> AppState" where
  "updateItem ident patch st =
     st\<lparr>items := map (\<lambda>i. if item_id i = ident then patch i else i) (items st)\<rparr>"

text \<open>
  \<^verbatim>\<open>it.count || 0\<close> is \<open>count it\<close>: on a number it only replaces \<open>NaN\<close> and \<open>0\<close> by \<open>0\<close>.
\<close>

definition increment :: "Item list \<Rightarrow> string \<Rightarrow> AppState \<Rightarrow> AppState" where
  "increment its ident st =
     (case find (\<lambda>i. item_id i = ident) its of
        None \<Rightarrow> st
      | Some it \<Rightarrow>
          (let next = min (count it + 1) (max 1 (target it))
           in updateItem ident (\<lambda>i. i\<lparr>count := next\<rparr>) st))"

definition decrement :: "Item list \<Rightarrow> string \<Rightarrow> AppState \<Rightarrow> AppState" where
  "decrement its ident st =
     (case find (\<lambda>i. item_id i = ident) its of
        None \<Rightarrow> st
      | Some it \<Rightarrow>
          (let next = max 0 (count it - 1)
           in updateItem ident (\<lambda>i. i\<lparr>count := next\<rparr>) st))"

text \<open>
  The menu actions of \<^verbatim>\<open>ItemCard\<close>; \<open>it\<close> is the item of the render the card belongs
  to. The text typed into the prompt is given by the integer \<open>Math.floor(Number(val))\<close>,
  or \<open>None\<close> when \<open>Number(val)\<close> is \<open>NaN\<close>; a cancelled prompt changes nothing and is
  not modelled.
\<close>

definition orElse :: "int option \<Rightarrow> int \<Rightarrow> int" where
  "orElse v dflt = (case v of None \<Rightarrow> dflt | Some n \<Rightarrow> if n = 0 then dflt else n)"

definition setCount :: "Item \<Rightarrow> int option \<Rightarrow> AppState \<Rightarrow> AppState" where
  "setCount it val st =
     (let n = max 0 (orElse val 0)
      in updateItem (item_id it) (\<lambda>i. i\<lparr>count := min n (max 1 (target it))\<rparr>) st)"

definition setTarget :: "Item \<Rightarrow> int option \<Rightarrow> AppState \<Rightarrow> AppState" where
  "setTarget it val st =
     (let t = max 1 (orElse val 1);
          newCount = min (count it) t
      in updateItem (item_id it) (\<lambda>i. i\<lparr>target := t, count := newCount\<rparr>) st)"

definition removeItem :: "string \<Rightarrow> AppState \<Rightarrow> AppState" where
  "removeItem ident st = st\<lparr>items := filter (\<lambda>i. item_id i \<noteq> ident) (items st)\<rparr>"

text \<open>
  \<^verbatim>\<open>addItem(title, period)\<close>; the fresh identifier of \<^verbatim>\<open>makeId()\<close> and the current
  date are parameters. \<^verbatim>\<open>trim()\<close> is modelled on the ASCII white space characters.
\<close>

definition isSpace :: "char \<Rightarrow> bool" where
  "isSpace c = (c \<in> set [CHR '' '', CHR 0x09, CHR 0x0A, CHR 0x0B, CHR 0x0C, CHR 0x0D])"

definition trim :: "string \<Rightarrow> string" where
  "trim s = rev (dropWhile isSpace (rev (dropWhile isSpace s)))"

definition addItem :: "TimeZone \<Rightarrow> Date \<Rightarrow> string \<Rightarrow> string \<Rightarrow> Period \<Rightarrow> AppState \<Rightarrow> AppState" where
  "addItem tz today newId ttl p st =
     (let it = \<lparr>item_id = newId,
                title = (if trim ttl = [] then ''Untitled'' else trim ttl),
                period = p,
                count = 0,
                target = 1,
                item_periodKey = periodKey tz p today,
                streak = 0,
                bestStreak = 0\<rparr>
      in st\<lparr>items := it # items st\<rparr>)"

text \<open>
  The submit handler of \<^verbatim>\<open>NewItemModal\<close>: the item is added, then the first item of
  the list receives the target of the form (\<open>None\<close> for an empty or non-numeric field).
\<close>

definition submitNew ::
  "TimeZone \<Rightarrow> Date \<Rightarrow> string \<Rightarrow> string \<Rightarrow> Period \<Rightarrow> int option \<Rightarrow> AppState \<Rightarrow> AppState" where
  "submitNew tz today newId ttl p tmpTarget st =
     (let tgt = max 1 (orElse tmpTarget 1);
          st1 = addItem tz today newId (if ttl = [] then ''Untitled'' else ttl) p st
      in st1\<lparr>items :=
           (case items st1 of
              [] \<Rightarrow> []
            | first # rest \<Rightarrow> first\<lparr>target := tgt, count := min (count first) tgt\<rparr> # rest)\<rparr>)"

text \<open>
  The submit handler (and the Save button) of \<^verbatim>\<open>EditItemModal\<close> for the item being
  edited and the fields of the form; the form is seeded from the item, so its period is
  always defined.
\<close>

definition saveEdit ::
  "TimeZone \<Rightarrow> Date \<Rightarrow> Item \<Rightarrow> string \<Rightarrow> Period \<Rightarrow> int option \<Rightarrow> AppState \<Rightarrow> AppState" where
  "saveEdit tz today editingItem tmpTitle tmpPeriod tmpTarget st =
     (let tgt = max 1 (orElse tmpTarget (orElse (Some (target editingItem)) 1));
          newCount = min (count editingItem) tgt
      in updateItem (item_id editingItem)
           (\<lambda>i. i\<lparr>title := (if tmpTitle = [] then ''Untitled'' else tmpTitle),
                   period := tmpPeriod,
                   count := newCount,
                   target := tgt,
                   item_periodKey :=
                     (if tmpPeriod \<noteq> period editingItem then periodKey tz tmpPeriod today
                      else item_periodKey editingItem)\<rparr>) st)"

subsection \<open>Section headers\<close>

text \<open>
  The block that renders the three sections (the immediately invoked function of the
  returned JSX). A section is rendered only when its period has an item; its header
  receives \<^verbatim>\<open>streakDisplay\<close> and \<^verbatim>\<open>best\<close>, its body the items of \<^verbatim>\<open>byPeriod\<close>.
  The block calls no state setter: it returns the view and the state it was given.
\<close>

record SectionView =
  streakDisplay :: int
  bestDisplay :: int
  cards :: "Item list"

definition hasPeriod :: "Item list \<Rightarrow> Period \<Rightarrow> bool" where
  "hasPeriod its p = list_ex (\<lambda>i. period i = p) its"

definition periodDone :: "Item list \<Rightarrow> Period \<Rightarrow> bool" where
  "periodDone its p =
     (hasPeriod its p \<and>
      list_all (\<lambda>i. count i \<ge> max 1 (target i)) (filter (\<lambda>i. period i = p) its))"

definition byPeriod :: "Item list \<Rightarrow> Period \<Rightarrow> Item list" where
  "byPeriod its p = filter (\<lambda>i. period i = p) its"

text \<open>The value passed as \<^verbatim>\<open>streakDisplay\<close>: stored streak \<open>+ (done ? 1 : 0)\<close>.\<close>

definition previewStreak :: "AppState \<Rightarrow> Period \<Rightarrow> int" where
  "previewStreak st p =
     current (sectionStreaks st) p + (if periodDone (items st) p then 1 else 0)"

definition renderSection :: "AppState \<Rightarrow> Period \<Rightarrow> SectionView option" where
  "renderSection st p =
     (if hasPeriod (items st) p
      then Some \<lparr>streakDisplay = previewStreak st p,
                 bestDisplay = best (sectionStreaks st) p,
                 cards = byPeriod (items st) p\<rparr>
      else None)"

definition renderSections :: "AppState \<Rightarrow> (Period \<Rightarrow> SectionView option) \<times> AppState" where
  "renderSections st = (renderSection st, st)"

section \<open>Storage\<close>

text \<open>
  What \<^verbatim>\<open>localStorage\<close> holds under one key: nothing (or the empty string, or storage
  is unavailable), a text on which \<^verbatim>\<open>JSON.parse\<close> or the field accesses that follow it
  throw, or a parsed value. A stored item keeps the fields the loader reads; a numeric
  field is \<open>None\<close> when it is missing, \<open>null\<close> or not a number, the period key is \<open>None\<close>
  when it is missing or \<open>null\<close>.
\<close>

datatype 'a stored = Absent | Corrupt | Parsed 'a

record StoredItem =
  s_id :: string
  s_title :: string
  s_period :: Period
  s_count :: "int option"
  s_target :: "int option"
  s_periodKey :: "string option"
  s_streak :: "int option"
  s_bestStreak :: "int option"

record StoredStreaks =
  s_daily :: "int option"
  s_weekly :: "int option"
  s_monthly :: "int option"
  s_bestDaily :: "int option"
  s_bestWeekly :: "int option"
  s_bestMonthly :: "int option"

record Storage =
  mhc_v3 :: "StoredItem list stored"
  mhc_v2 :: "StoredItem list stored"
  mhc_v1 :: "StoredItem list stored"
  mhc_section_streaks_v1 :: "StoredStreaks stored"

text \<open>\<^verbatim>\<open>x ?? dflt\<close>\<close>

definition nullish :: "'a option \<Rightarrow> 'a \<Rightarrow> 'a" where
  "nullish v dflt = (case v of None \<Rightarrow> dflt | Some x \<Rightarrow> x)"

definition loadItems :: "TimeZone \<Rightarrow> Date \<Rightarrow> Storage \<Rightarrow> Item list" where
  "loadItems tz today sto =
     (case mhc_v3 sto of
        Corrupt \<Rightarrow> []
      | Parsed arr \<Rightarrow>
          map (\<lambda>it. \<lparr>item_id = s_id it,
                     title = s_title it,
                     period = s_period it,
                     count = max 0 (orElse (s_count it) 0),
                     target = max 1 (orElse (s_target it) 1),
                     item_periodKey = nullish (s_periodKey it) (periodKey tz (s_period it) today),
                     streak = nullish (s_streak it) 0,
                     bestStreak = nullish (s_bestStreak it) 0\<rparr>) arr
      | Absent \<Rightarrow>
          (case mhc_v2 sto of
             Corrupt \<Rightarrow> []
           | Parsed arr \<Rightarrow>
               map (\<lambda>it. \<lparr>item_id = s_id it,
                          title = s_title it,
                          period = s_period it,
                          count = max 0 (orElse (s_count it) 0),
                          target = 1,
                          item_periodKey =
                            nullish (s_periodKey it) (periodKey tz (s_period it) today),
                          streak = nullish (s_streak it) 0,
                          bestStreak = nullish (s_bestStreak it) 0\<rparr>) arr
           | Absent \<Rightarrow>
               (case mhc_v1 sto of
                  Absent \<Rightarrow> []
                | Corrupt \<Rightarrow> []
                | Parsed arrV1 \<Rightarrow>
                    map (\<lambda>it. \<lparr>item_id = s_id it,
                               title = s_title it,
                               period = s_period it,
                               count = max 0 (orElse (s_count it) 0),
                               target = 1,
                               item_periodKey =
                                 nullish (s_periodKey it) (periodKey tz (s_period it) today),
                               streak = 0,
                               bestStreak = 0\<rparr>) arrV1)))"

definition saveItems :: "Item list \<Rightarrow> Storage \<Rightarrow> Storage" where
  "saveItems its sto =
     sto\<lparr>mhc_v3 :=
       Parsed (map (\<lambda>i. \<lparr>s_id = item_id i, s_title = title i, s_period = period i,
                          s_count = Some (count i), s_target = Some (target i),
                          s_periodKey = Some (item_periodKey i),
                          s_streak = Some (streak i),
                          s_bestStreak = Some (bestStreak i)\<rparr>) its)\<rparr>"

definition loadSectionStreaks :: "Storage \<Rightarrow> SectionStreaks" where
  "loadSectionStreaks sto =
     (case mhc_section_streaks_v1 sto of
        Absent \<Rightarrow>
          \<lparr>daily = 0, weekly = 0, monthly = 0, bestDaily = 0, bestWeekly = 0, bestMonthly = 0\<rparr>
      | Corrupt \<Rightarrow>
          \<lparr>daily = 0, weekly = 0, monthly = 0, bestDaily = 0, bestWeekly = 0, bestMonthly = 0\<rparr>
      | Parsed s \<Rightarrow>
          \<lparr>daily = nullish (s_daily s) 0,
           weekly = nullish (s_weekly s) 0,
           monthly = nullish (s_monthly s) 0,
           bestDaily = nullish (s_bestDaily s) 0,
           bestWeekly = nullish (s_bestWeekly s) 0,
           bestMonthly = nullish (s_bestMonthly s) 0\<rparr>)"

definition saveSectionStreaks :: "SectionStreaks \<Rightarrow> Storage \<Rightarrow> Storage" where
  "saveSectionStreaks ss sto =
     sto\<lparr>mhc_section_streaks_v1 :=
       Parsed \<lparr>s_daily = Some (daily ss), s_weekly = Some (weekly ss),
               s_monthly = Some (monthly ss), s_bestDaily = Some (bestDaily ss),
               s_bestWeekly = Some (bestWeekly ss), s_bestMonthly = Some (bestMonthly ss)\<rparr>\<rparr>"

text \<open>The initial state of the component: both pieces of state are loaded from storage.\<close>

definition initialState :: "TimeZone \<Rightarrow> Date \<Rightarrow> Storage \<Rightarrow> AppState" where
  "initialState tz today sto =
     \<lparr>items = loadItems tz today sto, sectionStreaks = loadSectionStreaks sto\<rparr>"

text \<open>Storage with none of the four keys.\<close>

definition emptyStorage :: Storage where
  "emptyStorage =
     \<lparr>mhc_v3 = Absent, mhc_v2 = Absent, mhc_v1 = Absent, mhc_section_streaks_v1 = Absent\<rparr>"

section \<open>Events\<close>

text \<open>
  The effects \<^verbatim>\<open>saveItems(items)\<close> and \<^verbatim>\<open>saveSectionStreaks(sectionStreaks)\<close> run after
  every change of state.
\<close>

definition persist :: "AppState \<Rightarrow> Storage \<Rightarrow> Storage" where
  "persist st sto = saveSectionStreaks (sectionStreaks st) (saveItems (items st) sto)"

text \<open>
  What can happen to a mounted component, one event at a time, each handled in the
  render that follows the previous one: a rollover check at some instant, the page
  becoming visible and focused (two checks in immediate succession), the buttons and
  menu actions of a card (an action of the menu carries the item of its card), the two
  forms, and closing and reopening the page, which loads what was persisted.
\<close>

datatype Event =
    Rollover Date
  | Refocus Date
  | Increment string
  | Decrement string
  | SetCount Item "int option"
  | SetTarget Item "int option"
  | Remove string
  | SubmitNew Date string string Period "int option"
  | SaveEdit Date Item string Period "int option"
  | Reload Date

fun step :: "TimeZone \<Rightarrow> AppState \<Rightarrow> Event \<Rightarrow> AppState" where
  "step tz st (Rollover now) = runRolloverCheck tz now st"
| "step tz st (Refocus now) = rolloverTwice tz now st"
| "step tz st (Increment ident) = increment (items st) ident st"
| "step tz st (Decrement ident) = decrement (items st) ident st"
| "step tz st (SetCount it val) = setCount it val st"
| "step tz st (SetTarget it val) = setTarget it val st"
| "step tz st (Remove ident) = removeItem ident st"
| "step tz st (SubmitNew today newId ttl p tmpTarget) = submitNew tz today newId ttl p tmpTarget st"
| "step tz st (SaveEdit today it tmpTitle tmpPeriod tmpTarget) =
     saveEdit tz today it tmpTitle tmpPeriod tmpTarget st"
| "step tz st (Reload today) = initialState tz today (persist st emptyStorage)"

definition run :: "TimeZone \<Rightarrow> AppState \<Rightarrow> Event list \<Rightarrow> AppState" where
  "run tz st evs = foldl (step tz) st evs"

section \<open>Time zones\<close>

text \<open>A zone with one offset all year round.\<close>

definition fixedOffset :: "int \<Rightarrow> TimeZone" where
  "fixedOffset off = (\<lambda>n. off)"

text \<open>
  US Eastern time in 2026: daylight saving time begins on Sunday 8 March and ends on
  Sunday 1 November, both at 2 a.m., so UTC-4 is in force at the local midnights from
  9 March to 1 November and UTC-5 at the others.
\<close>

definition easternTime2026 :: TimeZone where
  "easternTime2026 n =
     (if MakeDay 2026 2 9 \<le> n \<and> n \<le> MakeDay 2026 10 1 then - 14400000 else - 18000000)"

section \<open>Properties of the specification\<close>

text \<open>
  The data model's range of a counter: \<open>0 \<le> progress \<le> target\<close>, and \<open>target \<ge> 1\<close>.
\<close>

definition counterOk :: "Item \<Rightarrow> bool" where
  "counterOk it = (0 \<le> count it \<and> count it \<le> target it)"

definition targetOk :: "Item \<Rightarrow> bool" where
  "targetOk it = (1 \<le> target it)"

definition itemOk :: "Item \<Rightarrow> bool" where
  "itemOk i = (counterOk i \<and> targetOk i)"

text \<open>The streak record's invariant: \<open>best \<ge> current\<close> for every period kind.\<close>

definition streaksOk :: "SectionStreaks \<Rightarrow> bool" where
  "streaksOk s = (daily s \<le> bestDaily s \<and> weekly s \<le> bestWeekly s \<and> monthly s \<le> bestMonthly s)"

text \<open>The same for a stored record, whose missing numbers are read as 0.\<close>

definition storedStreaksOk :: "StoredStreaks \<Rightarrow> bool" where
  "storedStreaksOk s =
     (nullish (s_daily s) 0 \<le> nullish (s_bestDaily s) 0 \<and>
      nullish (s_weekly s) 0 \<le> nullish (s_bestWeekly s) 0 \<and>
      nullish (s_monthly s) 0 \<le> nullish (s_bestMonthly s) 0)"

text \<open>
  Group completeness in the specification's words: the group of the kind is non-empty
  and every member has \<open>progress \<ge> target\<close>.
\<close>

definition groupComplete :: "Item list \<Rightarrow> Period \<Rightarrow> bool" where
  "groupComplete its p =
     (list_ex (\<lambda>i. period i = p) its \<and>
      list_all (\<lambda>i. target i \<le> count i) (filter (\<lambda>i. period i = p) its))"

text \<open>
  The ISO week of a local day in the specification's words: weeks run from Monday to
  Sunday. Day 0 (1970-01-01) is a Thursday, so the Monday of its week is day \<open>-3\<close>.
\<close>

definition isoWeekIndex :: "Date \<Rightarrow> int" where
  "isoWeekIndex n = (n + 3) div 7"

definition sameISOWeek :: "Date \<Rightarrow> Date \<Rightarrow> bool" where
  "sameISOWeek a b = (isoWeekIndex a = isoWeekIndex b)"

section \<open>Example states\<close>

text \<open>
  One daily counter with target 3 that reached its target on 4 March 2026, with a stored
  daily streak of 2 and a best of 4; day 20517 is Thursday 5 March 2026.
\<close>

definition exampleItem :: Item where
  "exampleItem =
     \<lparr>item_id = ''a'', title = ''Push-ups'', period = Daily, count = 3, target = 3,
      item_periodKey = ''2026-03-04'', streak = 0, bestStreak = 0\<rparr>"

definition exampleStreaks :: SectionStreaks where
  "exampleStreaks =
     \<lparr>daily = 2, weekly = 0, monthly = 0, bestDaily = 4, bestWeekly = 0, bestMonthly = 0\<rparr>"

definition exampleState :: AppState where
  "exampleState = \<lparr>items = [exampleItem], sectionStreaks = exampleStreaks\<rparr>"

text \<open>
  Storage left by version 2 of the application (no targets yet): one counter with a
  count of 5. And storage of the current version whose counter has count 5, target 3.
\<close>

definition legacyItem :: StoredItem where
  "legacyItem =
     \<lparr>s_id = ''a'', s_title = ''Water'', s_period = Daily, s_count = Some 5,
      s_target = None, s_periodKey = Some ''2026-03-05'', s_streak = Some 0,
      s_bestStreak = Some 0\<rparr>"

definition legacyStorage :: Storage where
  "legacyStorage =
     \<lparr>mhc_v3 = Absent, mhc_v2 = Parsed [legacyItem], mhc_v1 = Absent,
      mhc_section_streaks_v1 = Absent\<rparr>"

text \<open>Storage whose streak record has a daily streak of 7 and a best daily streak of 3.\<close>

definition inconsistentStorage :: Storage where
  "inconsistentStorage =
     \<lparr>mhc_v3 = Absent, mhc_v2 = Absent, mhc_v1 = Absent,
      mhc_section_streaks_v1 =
        Parsed \<lparr>s_daily = Some 7, s_weekly = Some 0, s_monthly = Some 0,
                s_bestDaily = Some 3, s_bestWeekly = Some 0, s_bestMonthly = Some 0\<rparr>\<rparr>"

text \<open>A second state: a weekly counter at 1 of 2 in front of the daily counter.\<close>

definition exampleItemB :: Item where
  "exampleItemB =
     \<lparr>item_id = ''b'', title = ''Read'', period = Weekly, count = 1, target = 2,
      item_periodKey = ''2026-W10'', streak = 0, bestStreak = 0\<rparr>"

definition exampleState2 :: AppState where
  "exampleState2 = \<lparr>items = [exampleItemB, exampleItem], sectionStreaks = exampleStreaks\<rparr>"

text \<open>
  The specification's broken-streak scenario: the daily streak is 4 and the daily
  counter ended the day at 1 of 3.
\<close>

definition brokenState :: AppState where
  "brokenState =
     \<lparr>items = [exampleItem\<lparr>count := 1\<rparr>],
      sectionStreaks =
        \<lparr>daily = 4, weekly = 0, monthly = 0, bestDaily = 4, bestWeekly = 0, bestMonthly = 0\<rparr>\<rparr>"

section \<open>The rollover engine\<close>

lemma resetItem_key: "item_periodKey (resetItem tz now it) = periodKey tz (period it) now"
  by (simp add: resetItem_def Let_def)

lemma resetItem_period: "period (resetItem tz now it) = period it"
  by (simp add: resetItem_def Let_def)

lemma boundary_after_reset: "\<not> boundary tz (map (resetItem tz now) its) now p"
  by (auto simp: boundary_def list_ex_iff resetItem_key resetItem_period)

lemma boundary_iff:
  "boundary tz its now p \<longleftrightarrow>
     (\<exists>i\<in>set its. period i = p \<and> item_periodKey i \<noteq> periodKey tz p now)"
  by (auto simp: boundary_def list_ex_iff)

lemma allDone_iff:
  "allDone its p \<longleftrightarrow>
     (\<exists>i\<in>set its. period i = p) \<and>
     (\<forall>i\<in>set its. period i = p \<longrightarrow> max 1 (target i) \<le> count i)"
  by (auto simp: allDone_def Let_def list_all_iff filter_empty_conv)

lemma groupComplete_iff:
  "groupComplete its p \<longleftrightarrow>
     (\<exists>i\<in>set its. period i = p) \<and> (\<forall>i\<in>set its. period i = p \<longrightarrow> target i \<le> count i)"
  by (auto simp: groupComplete_def list_all_iff list_ex_iff)

lemma periodDone_allDone: "periodDone its p = allDone its p"
  by (auto simp: periodDone_def hasPeriod_def allDone_def Let_def list_ex_iff filter_empty_conv)

text \<open>
  On counters whose target is at least 1, as the data model has it, the completion test
  of the code (\<open>count \<ge> max 1 target\<close>) is the specification's group completeness.
\<close>

lemma allDone_groupComplete:
  "\<forall>i\<in>set its. period i = p \<longrightarrow> 1 \<le> target i \<Longrightarrow> allDone its p = groupComplete its p"
  by (auto simp: allDone_iff groupComplete_iff)

lemma rollover_no_boundary:
  "\<not> boundary tz its now Daily \<Longrightarrow> \<not> boundary tz its now Weekly \<Longrightarrow>
   \<not> boundary tz its now Monthly \<Longrightarrow> rollover tz its now st = st"
  by (simp add: rollover_def)

lemma rollover_items:
  "boundary tz its now q \<Longrightarrow>
   items (rollover tz its now st) = map (resetItem tz now) (items st)"
  by (cases q) (auto simp: rollover_def Let_def)

lemma rollover_current:
  "boundary tz its now p \<Longrightarrow>
   current (sectionStreaks (rollover tz its now st)) p =
     (if allDone its p then current (sectionStreaks st) p + 1 else 0)"
  by (cases p) (auto simp: rollover_def Let_def updateStreaks_def current_def)

lemma rollover_best:
  "boundary tz its now p \<Longrightarrow>
   best (sectionStreaks (rollover tz its now st)) p =
     max (best (sectionStreaks st) p) (current (sectionStreaks (rollover tz its now st)) p)"
  by (cases p) (auto simp: rollover_def Let_def updateStreaks_def current_def best_def)

lemma rollover_unchanged_kind:
  "\<not> boundary tz its now p \<Longrightarrow>
   current (sectionStreaks (rollover tz its now st)) p = current (sectionStreaks st) p \<and>
   best (sectionStreaks (rollover tz its now st)) p = best (sectionStreaks st) p"
  by (cases p) (auto simp: rollover_def Let_def updateStreaks_def current_def best_def)

text \<open>
  The specification's first scenario: the daily counter reached its target of 3; at the
  day boundary the daily streak goes from 2 to 3, the progress is reset to 0 and the
  period key becomes the key of the new day.
\<close>

lemma example_boundary: "boundary (fixedOffset 0) (items exampleState) 20517 Daily"
  by code_simp

lemma example_rollover:
  "runRolloverCheck (fixedOffset 0) 20517 exampleState =
     \<lparr>items = [exampleItem\<lparr>item_periodKey := ''2026-03-05'', count := 0\<rparr>],
      sectionStreaks = exampleStreaks\<lparr>daily := 3\<rparr>\<rparr>"
  by code_simp

text \<open>
  When the component has rendered between two checks, the second check reads the items
  that the first one produced: every counter carries the current key, no boundary is
  found and the state stays as the first check left it.
\<close>

lemma rollover_idempotent:
  "runRolloverCheck tz now (runRolloverCheck tz now st) = runRolloverCheck tz now st"
proof (cases "\<exists>q. boundary tz (items st) now q")
  case False
  then have "runRolloverCheck tz now st = st"
    by (simp add: runRolloverCheck_def rollover_no_boundary)
  then show ?thesis by simp
next
  case True
  then obtain q where "boundary tz (items st) now q" ..
  then have "items (runRolloverCheck tz now st) = map (resetItem tz now) (items st)"
    by (simp add: runRolloverCheck_def rollover_items)
  then show ?thesis
    by (simp add: runRolloverCheck_def [of tz now "runRolloverCheck tz now st"]
        rollover_no_boundary boundary_after_reset)
qed

text \<open>
  Claim C1 (rollover idempotence), at the input where the code departs from it. The
  daily counter of the example reached its target, the stored daily streak is 2, and on
  5 March 2026 the page becomes visible and focused: the listeners for
  \<^verbatim>\<open>visibilitychange\<close> and \<^verbatim>\<open>focus\<close> both run the rollover of the last render, with no
  change of the clock and nothing in between. The first check alone gives a daily streak
  of 3; the second check reads the same items as the first, detects the boundary again
  and raises the streak to 4, so the state after the second check is not the state the
  first one produced.
\<close>

theorem successive_checks_count_twice:
  "daily (sectionStreaks (runRolloverCheck (fixedOffset 0) 20517 exampleState)) = 3 \<and>
   daily (sectionStreaks (rolloverTwice (fixedOffset 0) 20517 exampleState)) = 4 \<and>
   rolloverTwice (fixedOffset 0) 20517 exampleState \<noteq>
     runRolloverCheck (fixedOffset 0) 20517 exampleState"
  by code_simp

text \<open>
  Claim C2 (single-increment law): when a boundary is detected for a period kind and
  every counter of that kind has reached its target, one rollover check raises the
  stored streak of that kind by exactly 1, whatever the stale period keys are (that is,
  however many periods went by), and the best streak becomes the larger of the old best
  and the new streak.
\<close>

theorem single_increment:
  assumes "boundary tz (items st) now p"
    and "\<forall>i\<in>set (items st). period i = p \<longrightarrow> 1 \<le> target i \<and> target i \<le> count i"
  shows "current (sectionStreaks (runRolloverCheck tz now st)) p =
           current (sectionStreaks st) p + 1 \<and>
         best (sectionStreaks (runRolloverCheck tz now st)) p =
           max (best (sectionStreaks st) p) (current (sectionStreaks st) p + 1)"
proof -
  from assms(1) have "\<exists>i\<in>set (items st). period i = p"
    by (auto simp: boundary_iff)
  with assms(2) have "allDone (items st) p"
    by (auto simp: allDone_iff)
  with assms(1) have "current (sectionStreaks (runRolloverCheck tz now st)) p =
      current (sectionStreaks st) p + 1"
    by (simp add: runRolloverCheck_def rollover_current)
  moreover from assms(1) have "best (sectionStreaks (runRolloverCheck tz now st)) p =
      max (best (sectionStreaks st) p) (current (sectionStreaks (runRolloverCheck tz now st)) p)"
    by (simp add: runRolloverCheck_def rollover_best)
  ultimately show ?thesis by simp
qed

theorem single_increment_witness:
  "boundary (fixedOffset 0) (items exampleState) 20517 Daily \<and>
   current (sectionStreaks exampleState) Daily = 2 \<and>
   current (sectionStreaks (runRolloverCheck (fixedOffset 0) 20517 exampleState)) Daily = 3 \<and>
   best (sectionStreaks (runRolloverCheck (fixedOffset 0) 20517 exampleState)) Daily = 4"
proof -
  have b: "boundary (fixedOffset 0) (items exampleState) 20517 Daily"
    by code_simp
  have t: "\<forall>i\<in>set (items exampleState).
             period i = Daily \<longrightarrow> 1 \<le> target i \<and> target i \<le> count i"
    by (simp add: exampleState_def exampleItem_def)
  from single_increment [OF b t] b show ?thesis
    by (simp add: exampleState_def exampleStreaks_def current_def best_def)
qed

text \<open>
  Claim C3 (pre-reset evaluation and reset step): when a boundary is detected for a
  period kind, the streak is decided by the completeness of the group as it stood before
  the reset (non-empty, every member at its target); then every counter of that kind
  whose stored key differs from the current key gets progress 0 and the current key,
  and the counters whose key is already current are unchanged.
\<close>

theorem pre_reset_evaluation:
  assumes "boundary tz (items st) now p"
    and "\<forall>i\<in>set (items st). period i = p \<longrightarrow> 1 \<le> target i"
  shows "current (sectionStreaks (runRolloverCheck tz now st)) p =
           (if groupComplete (items st) p then current (sectionStreaks st) p + 1 else 0) \<and>
         length (items (runRolloverCheck tz now st)) = length (items st) \<and>
         (\<forall>j < length (items st). period (items st ! j) = p \<longrightarrow>
            items (runRolloverCheck tz now st) ! j =
              (if item_periodKey (items st ! j) \<noteq> periodKey tz p now
               then (items st ! j)\<lparr>item_periodKey := periodKey tz p now, count := 0\<rparr>
               else items st ! j))"
proof -
  have its: "items (runRolloverCheck tz now st) = map (resetItem tz now) (items st)"
    using assms(1) by (simp add: runRolloverCheck_def rollover_items)
  have cur: "current (sectionStreaks (runRolloverCheck tz now st)) p =
           (if groupComplete (items st) p then current (sectionStreaks st) p + 1 else 0)"
    using assms by (simp add: runRolloverCheck_def rollover_current allDone_groupComplete)
  have nth: "\<forall>j < length (items st). period (items st ! j) = p \<longrightarrow>
            items (runRolloverCheck tz now st) ! j =
              (if item_periodKey (items st ! j) \<noteq> periodKey tz p now
               then (items st ! j)\<lparr>item_periodKey := periodKey tz p now, count := 0\<rparr>
               else items st ! j)"
    by (auto simp: its resetItem_def Let_def)
  from its cur nth show ?thesis by simp
qed

theorem pre_reset_evaluation_witness:
  "boundary (fixedOffset 0) (items exampleState) 20517 Daily \<and>
   groupComplete (items exampleState) Daily \<and>
   current (sectionStreaks (runRolloverCheck (fixedOffset 0) 20517 exampleState)) Daily = 3 \<and>
   items (runRolloverCheck (fixedOffset 0) 20517 exampleState) ! 0 =
     exampleItem\<lparr>item_periodKey := periodKey (fixedOffset 0) Daily 20517, count := 0\<rparr>"
proof -
  have b: "boundary (fixedOffset 0) (items exampleState) 20517 Daily"
    by code_simp
  have t: "\<forall>i\<in>set (items exampleState). period i = Daily \<longrightarrow> 1 \<le> target i"
    by (simp add: exampleState_def exampleItem_def)
  have g: "groupComplete (items exampleState) Daily"
    by (simp add: exampleState_def exampleItem_def groupComplete_def)
  have k: "item_periodKey (items exampleState ! 0) \<noteq> periodKey (fixedOffset 0) Daily 20517"
    by code_simp
  from pre_reset_evaluation [OF b t] g k b show ?thesis
    by (simp add: exampleState_def exampleItem_def exampleStreaks_def current_def)
qed

text \<open>
  Claim C4 (empty-group law): for a period kind with no counter, a rollover check
  detects no boundary for that kind and changes neither the stored streak nor the best
  streak of that kind, at any instant.
\<close>

theorem empty_group:
  assumes "\<forall>i\<in>set (items st). period i \<noteq> p"
  shows "\<not> boundary tz (items st) now p \<and>
         current (sectionStreaks (runRolloverCheck tz now st)) p =
           current (sectionStreaks st) p \<and>
         best (sectionStreaks (runRolloverCheck tz now st)) p = best (sectionStreaks st) p"
proof -
  from assms have "\<not> boundary tz (items st) now p"
    by (auto simp: boundary_iff)
  then show ?thesis
    by (simp add: runRolloverCheck_def rollover_unchanged_kind)
qed

theorem empty_group_witness:
  "\<not> boundary (fixedOffset 0) (items exampleState) 20517 Weekly \<and>
   current (sectionStreaks (runRolloverCheck (fixedOffset 0) 20517 exampleState)) Weekly = 0 \<and>
   best (sectionStreaks (runRolloverCheck (fixedOffset 0) 20517 exampleState)) Weekly = 0 \<and>
   runRolloverCheck (fixedOffset 0) 20517 exampleState \<noteq> exampleState"
proof -
  have e: "\<forall>i\<in>set (items exampleState). period i \<noteq> Weekly"
    by (simp add: exampleState_def exampleItem_def)
  have c: "runRolloverCheck (fixedOffset 0) 20517 exampleState \<noteq> exampleState"
    by code_simp
  from empty_group [OF e, of "fixedOffset 0" 20517] c show ?thesis
    by (simp add: exampleState_def exampleStreaks_def current_def best_def)
qed

section \<open>The live preview\<close>

text \<open>
  Claim C5 (preview streak): the value shown as the streak of a period kind is the
  stored streak plus 1 when the kind has a counter and every counter of the kind has
  reached its target, and the stored streak otherwise; a section that is rendered shows
  this value (a kind without counters has no section), and computing it changes neither
  the counters nor the streak record.
\<close>

theorem preview_streak:
  assumes "\<forall>i\<in>set (items st). period i = p \<longrightarrow> 1 \<le> target i"
  shows "previewStreak st p =
           current (sectionStreaks st) p + (if groupComplete (items st) p then 1 else 0) \<and>
         (case fst (renderSections st) p of
            None \<Rightarrow> \<not> list_ex (\<lambda>i. period i = p) (items st)
          | Some v \<Rightarrow> streakDisplay v = previewStreak st p) \<and>
         snd (renderSections st) = st"
  using assms
  by (simp add: previewStreak_def periodDone_allDone allDone_groupComplete renderSections_def
      renderSection_def hasPeriod_def)

theorem preview_streak_witness:
  "previewStreak exampleState Daily = 3 \<and>
   previewStreak (decrement (items exampleState) ''a'' exampleState) Daily = 2 \<and>
   sectionStreaks (decrement (items exampleState) ''a'' exampleState) = exampleStreaks"
proof -
  let ?st = "decrement (items exampleState) ''a'' exampleState"
  have t: "\<forall>i\<in>set (items exampleState). period i = Daily \<longrightarrow> 1 \<le> target i"
    by (simp add: exampleState_def exampleItem_def)
  have t': "\<forall>i\<in>set (items ?st). period i = Daily \<longrightarrow> 1 \<le> target i"
    by (simp add: exampleState_def exampleItem_def decrement_def updateItem_def)
  have g: "groupComplete (items exampleState) Daily"
    by (simp add: exampleState_def exampleItem_def groupComplete_def)
  have g': "\<not> groupComplete (items ?st) Daily"
    by (simp add: exampleState_def exampleItem_def groupComplete_def decrement_def updateItem_def)
  have s: "sectionStreaks ?st = exampleStreaks"
    by (simp add: exampleState_def exampleItem_def decrement_def updateItem_def)
  from preview_streak [OF t] preview_streak [OF t'] g g' s show ?thesis
    by (simp add: exampleState_def exampleStreaks_def current_def)
qed

section \<open>Counter operations\<close>

lemma find_None_conv: "find P xs = None \<longleftrightarrow> (\<forall>x\<in>set xs. \<not> P x)"
  by (induction xs) auto

lemma updateItem_streaks: "sectionStreaks (updateItem ident f st) = sectionStreaks st"
  by (simp add: updateItem_def)

lemma updateItem_length: "length (items (updateItem ident f st)) = length (items st)"
  by (simp add: updateItem_def)

lemma updateItem_nth:
  "j < length (items st) \<Longrightarrow>
   items (updateItem ident f st) ! j =
     (if item_id (items st ! j) = ident then f (items st ! j) else items st ! j)"
  by (simp add: updateItem_def)

text \<open>
  Claim C9 (unknown-id no-op): for an id that matches no counter of the collection,
  \<open>increment\<close> and \<open>decrement\<close> return the state unchanged (counters and streak record);
  both are total, so no error is signalled.
\<close>

theorem unknown_id_noop:
  assumes "\<forall>i\<in>set (items st). item_id i \<noteq> ident"
  shows "increment (items st) ident st = st \<and> decrement (items st) ident st = st"
proof -
  from assms have "find (\<lambda>i. item_id i = ident) (items st) = None"
    by (simp add: find_None_conv)
  then show ?thesis
    by (simp add: increment_def decrement_def)
qed

theorem unknown_id_noop_witness:
  "increment (items exampleState2) ''zz'' exampleState2 = exampleState2 \<and>
   decrement (items exampleState2) ''zz'' exampleState2 = exampleState2 \<and>
   decrement (items exampleState2) ''b'' exampleState2 \<noteq> exampleState2"
proof -
  have h: "\<forall>i\<in>set (items exampleState2). item_id i \<noteq> ''zz''"
    by (simp add: exampleState2_def exampleItem_def exampleItemB_def)
  have c: "decrement (items exampleState2) ''b'' exampleState2 \<noteq> exampleState2"
    by (simp add: exampleState2_def exampleItem_def exampleItemB_def decrement_def
        updateItem_def)
  from unknown_id_noop [OF h] c show ?thesis by simp
qed

text \<open>
  Claim C10 (increment frame property): \<open>increment\<close> leaves the streak record, the
  length and the order of the collection unchanged; a counter with another id is
  unchanged, and a counter with the given id differs from its old value at most in its
  \<open>count\<close> field.
\<close>

theorem increment_frame:
  "sectionStreaks (increment (items st) ident st) = sectionStreaks st \<and>
   length (items (increment (items st) ident st)) = length (items st) \<and>
   (\<forall>j < length (items st).
      (item_id (items st ! j) \<noteq> ident \<longrightarrow>
         items (increment (items st) ident st) ! j = items st ! j) \<and>
      (items (increment (items st) ident st) ! j)\<lparr>count := count (items st ! j)\<rparr> =
        items st ! j)"
  by (cases "find (\<lambda>i. item_id i = ident) (items st)")
     (simp_all add: increment_def Let_def updateItem_streaks updateItem_length updateItem_nth)

theorem increment_frame_witness:
  "sectionStreaks (increment (items exampleState2) ''b'' exampleState2) = exampleStreaks \<and>
   items (increment (items exampleState2) ''b'' exampleState2) =
     [exampleItemB\<lparr>count := 2\<rparr>, exampleItem]"
proof -
  have l: "(1::nat) < length (items exampleState2)" "(0::nat) < length (items exampleState2)"
    by (simp_all add: exampleState2_def)
  have e: "increment (items exampleState2) ''b'' exampleState2 =
      \<lparr>items = [exampleItemB\<lparr>count := 2\<rparr>, exampleItem], sectionStreaks = exampleStreaks\<rparr>"
    by (simp add: exampleState2_def exampleItem_def exampleItemB_def increment_def
        updateItem_def)
  from increment_frame [of exampleState2 "''b''"] l e show ?thesis
    by simp
qed

section \<open>The range of a counter\<close>

text \<open>
  Every operation of the running application keeps \<open>0 \<le> count \<le> target\<close> and
  \<open>target \<ge> 1\<close> on every counter (identifiers are distinct; a menu action or a form acts
  on an item of the collection).
\<close>

lemma updateItem_all:
  assumes "\<forall>i\<in>set (items st). P i"
    and "\<forall>i\<in>set (items st). item_id i = ident \<longrightarrow> P (f i)"
  shows "\<forall>i\<in>set (items (updateItem ident f st)). P i"
  using assms by (auto simp: updateItem_def)

lemma distinct_id_unique:
  "distinct (map item_id xs) \<Longrightarrow> a \<in> set xs \<Longrightarrow> b \<in> set xs \<Longrightarrow> item_id a = item_id b \<Longrightarrow> a = b"
  by (simp add: distinct_map inj_on_def)

lemma find_Some_set: "find P xs = Some x \<Longrightarrow> x \<in> set xs \<and> P x"
  by (induction xs) (auto split: if_splits)

lemma itemOk_count:
  "itemOk it \<Longrightarrow> 0 \<le> c \<Longrightarrow> c \<le> target it \<Longrightarrow> itemOk (it\<lparr>count := c\<rparr>)"
  by (simp add: itemOk_def counterOk_def targetOk_def)

lemma increment_range:
  assumes ok: "\<forall>i\<in>set (items st). itemOk i"
    and d: "distinct (map item_id (items st))"
  shows "\<forall>i\<in>set (items (increment (items st) ident st)). itemOk i"
proof (cases "find (\<lambda>i. item_id i = ident) (items st)")
  case None
  with ok show ?thesis by (simp add: increment_def)
next
  case (Some it)
  from find_Some_set [OF Some] have it: "it \<in> set (items st)" "item_id it = ident"
    by simp_all
  from ok it(1) have okit: "itemOk it" by simp
  have "\<forall>i\<in>set (items st). item_id i = ident \<longrightarrow>
          itemOk (i\<lparr>count := min (count it + 1) (max 1 (target it))\<rparr>)"
  proof (intro ballI impI)
    fix i assume i: "i \<in> set (items st)" "item_id i = ident"
    from distinct_id_unique [OF d i(1) it(1)] i(2) it(2) have "i = it" by simp
    moreover from okit have "itemOk (it\<lparr>count := min (count it + 1) (max 1 (target it))\<rparr>)"
      by (intro itemOk_count) (simp_all add: itemOk_def counterOk_def targetOk_def)
    ultimately show "itemOk (i\<lparr>count := min (count it + 1) (max 1 (target it))\<rparr>)"
      by simp
  qed
  with ok have "\<forall>i\<in>set (items (updateItem ident
      (\<lambda>i. i\<lparr>count := min (count it + 1) (max 1 (target it))\<rparr>) st)). itemOk i"
    by (rule updateItem_all)
  then show ?thesis
    by (simp add: increment_def Some Let_def)
qed

lemma decrement_range:
  assumes ok: "\<forall>i\<in>set (items st). itemOk i"
    and d: "distinct (map item_id (items st))"
  shows "\<forall>i\<in>set (items (decrement (items st) ident st)). itemOk i"
proof (cases "find (\<lambda>i. item_id i = ident) (items st)")
  case None
  with ok show ?thesis by (simp add: decrement_def)
next
  case (Some it)
  from find_Some_set [OF Some] have it: "it \<in> set (items st)" "item_id it = ident"
    by simp_all
  from ok it(1) have okit: "itemOk it" by simp
  have "\<forall>i\<in>set (items st). item_id i = ident \<longrightarrow>
          itemOk (i\<lparr>count := max 0 (count it - 1)\<rparr>)"
  proof (intro ballI impI)
    fix i assume i: "i \<in> set (items st)" "item_id i = ident"
    from distinct_id_unique [OF d i(1) it(1)] i(2) it(2) have "i = it" by simp
    moreover from okit have "itemOk (it\<lparr>count := max 0 (count it - 1)\<rparr>)"
      by (intro itemOk_count) (simp_all add: itemOk_def counterOk_def targetOk_def)
    ultimately show "itemOk (i\<lparr>count := max 0 (count it - 1)\<rparr>)"
      by simp
  qed
  with ok have "\<forall>i\<in>set (items (updateItem ident
      (\<lambda>i. i\<lparr>count := max 0 (count it - 1)\<rparr>) st)). itemOk i"
    by (rule updateItem_all)
  then show ?thesis
    by (simp add: decrement_def Some Let_def)
qed

lemma setCount_range:
  assumes ok: "\<forall>i\<in>set (items st). itemOk i"
    and d: "distinct (map item_id (items st))"
    and it: "it \<in> set (items st)"
  shows "\<forall>i\<in>set (items (setCount it val st)). itemOk i"
proof -
  from ok it have okit: "itemOk it" by simp
  have "\<forall>i\<in>set (items st). item_id i = item_id it \<longrightarrow>
          itemOk (i\<lparr>count := min (max 0 (orElse val 0)) (max 1 (target it))\<rparr>)"
  proof (intro ballI impI)
    fix i assume i: "i \<in> set (items st)" "item_id i = item_id it"
    from distinct_id_unique [OF d i(1) it] i(2) have "i = it" by simp
    moreover from okit
    have "itemOk (it\<lparr>count := min (max 0 (orElse val 0)) (max 1 (target it))\<rparr>)"
      by (intro itemOk_count) (simp_all add: itemOk_def counterOk_def targetOk_def)
    ultimately show "itemOk (i\<lparr>count := min (max 0 (orElse val 0)) (max 1 (target it))\<rparr>)"
      by simp
  qed
  with ok have "\<forall>i\<in>set (items (updateItem (item_id it)
      (\<lambda>i. i\<lparr>count := min (max 0 (orElse val 0)) (max 1 (target it))\<rparr>) st)). itemOk i"
    by (rule updateItem_all)
  then show ?thesis
    by (simp add: setCount_def Let_def)
qed

lemma setTarget_range:
  assumes ok: "\<forall>i\<in>set (items st). itemOk i"
    and it: "it \<in> set (items st)"
  shows "\<forall>i\<in>set (items (setTarget it val st)). itemOk i"
proof -
  from ok it have c: "0 \<le> count it" by (simp add: itemOk_def counterOk_def)
  have "\<forall>i\<in>set (items st). item_id i = item_id it \<longrightarrow>
          itemOk (i\<lparr>target := max 1 (orElse val 1),
                     count := min (count it) (max 1 (orElse val 1))\<rparr>)"
    using c by (auto simp: itemOk_def counterOk_def targetOk_def)
  with ok have "\<forall>i\<in>set (items (updateItem (item_id it)
      (\<lambda>i. i\<lparr>target := max 1 (orElse val 1),
               count := min (count it) (max 1 (orElse val 1))\<rparr>) st)). itemOk i"
    by (rule updateItem_all)
  then show ?thesis
    by (simp add: setTarget_def Let_def)
qed

lemma removeItem_range:
  "\<forall>i\<in>set (items st). itemOk i \<Longrightarrow> \<forall>i\<in>set (items (removeItem ident st)). itemOk i"
  by (simp add: removeItem_def)

lemma submitNew_range:
  assumes ok: "\<forall>i\<in>set (items st). itemOk i"
  shows "\<forall>i\<in>set (items (submitNew tz today newId ttl p tmpTarget st)). itemOk i"
  using ok by (auto simp: submitNew_def addItem_def Let_def itemOk_def counterOk_def targetOk_def)

lemma saveEdit_range:
  assumes ok: "\<forall>i\<in>set (items st). itemOk i"
    and it: "it \<in> set (items st)"
  shows "\<forall>i\<in>set (items (saveEdit tz today it tmpTitle tmpPeriod tmpTarget st)). itemOk i"
proof -
  from ok it have c: "0 \<le> count it" by (simp add: itemOk_def counterOk_def)
  define tgt where "tgt = max 1 (orElse tmpTarget (orElse (Some (target it)) 1))"
  have t: "1 \<le> tgt" by (simp add: tgt_def)
  define f where "f = (\<lambda>i::Item. i\<lparr>title := (if tmpTitle = [] then ''Untitled'' else tmpTitle),
                   period := tmpPeriod,
                   count := min (count it) tgt,
                   target := tgt,
                   item_periodKey :=
                     (if tmpPeriod \<noteq> period it then periodKey tz tmpPeriod today
                      else item_periodKey it)\<rparr>)"
  have "\<forall>i\<in>set (items st). item_id i = item_id it \<longrightarrow> itemOk (f i)"
    using c t by (auto simp: f_def itemOk_def counterOk_def targetOk_def)
  with ok have "\<forall>i\<in>set (items (updateItem (item_id it) f st)). itemOk i"
    by (rule updateItem_all)
  then show ?thesis
    by (simp add: saveEdit_def Let_def f_def tgt_def)
qed

lemma rollover_range:
  assumes ok: "\<forall>i\<in>set (items st). itemOk i"
  shows "\<forall>i\<in>set (items (rollover tz its now st)). itemOk i"
proof (cases "\<exists>q. boundary tz its now q")
  case True
  then obtain q where "boundary tz its now q" ..
  then have "items (rollover tz its now st) = map (resetItem tz now) (items st)"
    by (rule rollover_items)
  moreover have "itemOk i \<Longrightarrow> itemOk (resetItem tz now i)" for i
    by (simp add: resetItem_def Let_def itemOk_def counterOk_def targetOk_def)
  ultimately show ?thesis using ok by simp
next
  case False
  with ok show ?thesis by (simp add: rollover_no_boundary)
qed


lemma loadItems_lower:
  "\<forall>i\<in>set (loadItems tz today sto). 0 \<le> count i \<and> targetOk i"
  unfolding loadItems_def
  by (cases "mhc_v3 sto"; cases "mhc_v2 sto"; cases "mhc_v1 sto") (simp_all add: targetOk_def)

lemma orElse_Some_max:
  "0 \<le> c \<Longrightarrow> max 0 (orElse (Some c) 0) = c" "1 \<le> t \<Longrightarrow> max 1 (orElse (Some t) 1) = t"
  by (simp_all add: orElse_def)

lemma loadItems_saved:
  assumes ok: "\<forall>i\<in>set its. itemOk i"
  shows "loadItems tz today (saveItems its sto) = its"
proof -
  have "map (\<lambda>i. \<lparr>item_id = item_id i, title = title i, period = period i,
                   count = max 0 (orElse (Some (count i)) 0),
                   target = max 1 (orElse (Some (target i)) 1),
                   item_periodKey = item_periodKey i, streak = streak i,
                   bestStreak = bestStreak i\<rparr>) its = its"
    using ok
  proof (induction its)
    case Nil
    then show ?case by simp
  next
    case (Cons a its)
    then have "0 \<le> count a" "1 \<le> target a"
      by (simp_all add: itemOk_def counterOk_def targetOk_def)
    with Cons show ?case by (simp add: orElse_Some_max)
  qed
  then show ?thesis
    by (simp add: loadItems_def saveItems_def nullish_def comp_def)
qed

text \<open>
  Claim C6 (counter clamping invariant), at the input where the code departs from it:
  the storage left by version 2 holds a counter with a count of 5; the migration gives
  it the target 1 and keeps the count, so the loaded counter has \<open>count = 5 > target = 1\<close>.
\<close>

theorem migration_exceeds_target:
  "map (\<lambda>i. (count i, target i)) (loadItems (fixedOffset 0) 20517 legacyStorage) = [(5, 1)] \<and>
   \<not> list_all counterOk (loadItems (fixedOffset 0) 20517 legacyStorage)"
  by (simp add: loadItems_def legacyStorage_def legacyItem_def orElse_def nullish_def
      counterOk_def)

section \<open>The streak record\<close>

lemma load_save_streaks: "loadSectionStreaks (saveSectionStreaks s sto) = s"
  by (simp add: loadSectionStreaks_def saveSectionStreaks_def nullish_def)

lemma load_default_streaks:
  "mhc_section_streaks_v1 sto = Absent \<or> mhc_section_streaks_v1 sto = Corrupt \<Longrightarrow>
   streaksOk (loadSectionStreaks sto)"
  by (auto simp: loadSectionStreaks_def streaksOk_def)

lemma streaksOk_iff: "streaksOk s \<longleftrightarrow> (\<forall>p. current s p \<le> best s p)"
proof
  assume "streaksOk s"
  then show "\<forall>p. current s p \<le> best s p"
    by (auto simp: streaksOk_def current_def best_def split: Period.splits)
next
  assume a: "\<forall>p. current s p \<le> best s p"
  from a [rule_format, of Daily] a [rule_format, of Weekly] a [rule_format, of Monthly]
  show "streaksOk s"
    by (simp add: streaksOk_def current_def best_def)
qed

lemma rollover_streaksOk:
  assumes "streaksOk (sectionStreaks st)"
  shows "streaksOk (sectionStreaks (rollover tz its now st))"
  unfolding streaksOk_iff
proof
  fix p
  show "current (sectionStreaks (rollover tz its now st)) p
        \<le> best (sectionStreaks (rollover tz its now st)) p"
  proof (cases "boundary tz its now p")
    case True
    then show ?thesis by (simp add: rollover_best)
  next
    case False
    with assms show ?thesis
      by (simp add: rollover_unchanged_kind streaksOk_iff)
  qed
qed

lemma rollover_changes_best:
  assumes "current (sectionStreaks (rollover tz its now st)) p \<noteq> current (sectionStreaks st) p"
  shows "best (sectionStreaks (rollover tz its now st)) p =
         max (best (sectionStreaks st) p) (current (sectionStreaks (rollover tz its now st)) p)"
proof -
  from assms have "boundary tz its now p"
    using rollover_unchanged_kind by blast
  then show ?thesis by (rule rollover_best)
qed

lemma rolloverTwice_streaksOk:
  "streaksOk (sectionStreaks st) \<Longrightarrow> streaksOk (sectionStreaks (rolloverTwice tz now st))"
  by (simp add: rolloverTwice_def rollover_streaksOk)

lemma step_streaks:
  "sectionStreaks (step tz st ev) = sectionStreaks st \<or>
   (\<exists>now. ev = Rollover now) \<or> (\<exists>now. ev = Refocus now)"
  by (cases ev)
     (simp_all add: increment_def decrement_def setCount_def setTarget_def removeItem_def
       submitNew_def addItem_def saveEdit_def updateItem_def Let_def initialState_def
       persist_def load_save_streaks split: option.splits)

lemma step_streaksOk:
  assumes "streaksOk (sectionStreaks st)"
  shows "streaksOk (sectionStreaks (step tz st ev))"
proof (cases ev)
  case (Rollover now)
  with assms show ?thesis
    by (simp add: runRolloverCheck_def rollover_streaksOk)
next
  case (Refocus now)
  with assms show ?thesis
    by (simp add: rolloverTwice_streaksOk)
next
  case (Increment x) with assms step_streaks [of tz st ev] show ?thesis by auto
next
  case (Decrement x) with assms step_streaks [of tz st ev] show ?thesis by auto
next
  case (SetCount x y) with assms step_streaks [of tz st ev] show ?thesis by auto
next
  case (SetTarget x y) with assms step_streaks [of tz st ev] show ?thesis by auto
next
  case (Remove x) with assms step_streaks [of tz st ev] show ?thesis by auto
next
  case (SubmitNew a b c d e) with assms step_streaks [of tz st ev] show ?thesis by auto
next
  case (SaveEdit a b c d e) with assms step_streaks [of tz st ev] show ?thesis by auto
next
  case (Reload x) with assms step_streaks [of tz st ev] show ?thesis by auto
qed

lemma run_streaksOk:
  "streaksOk (sectionStreaks st) \<Longrightarrow> streaksOk (sectionStreaks (run tz st evs))"
  unfolding run_def
  by (induction evs arbitrary: st) (simp_all add: step_streaksOk)

lemma load_streaksOk_iff:
  "streaksOk (loadSectionStreaks sto) \<longleftrightarrow>
     (case mhc_section_streaks_v1 sto of
        Absent \<Rightarrow> True | Corrupt \<Rightarrow> True | Parsed s \<Rightarrow> storedStreaksOk s)"
  by (cases "mhc_section_streaks_v1 sto")
     (simp_all add: loadSectionStreaks_def streaksOk_def storedStreaksOk_def)

lemma rollover_boundary_ok:
  "boundary tz its now p \<Longrightarrow>
   current (sectionStreaks (rollover tz its now st)) p
     \<le> best (sectionStreaks (rollover tz its now st)) p"
  by (simp add: rollover_best)

text \<open>
  Claim C7 (streak record invariant), as stated: \<open>best \<ge> current\<close> holds after load.
  It fails on a stored record that does not satisfy it: the loader copies the stored
  numbers, so the record with a daily streak of 7 and a best of 3 is loaded as it is, and
  a rollover check that finds no daily boundary leaves it so.
\<close>

theorem load_copies_stored_record:
  "current (loadSectionStreaks inconsistentStorage) Daily = 7 \<and>
   best (loadSectionStreaks inconsistentStorage) Daily = 3 \<and>
   \<not> streaksOk (loadSectionStreaks inconsistentStorage) \<and>
   \<not> streaksOk (sectionStreaks
        (runRolloverCheck (fixedOffset 0) 20517
           (initialState (fixedOffset 0) 20517 inconsistentStorage)))"
  by code_simp

text \<open>
  Claim C7, amended: for every period kind, \<open>best \<ge> current\<close> holds after load exactly
  when no streak record is stored, the stored text is unreadable, or the stored record
  satisfies it (missing numbers read as 0); loading what the application persisted gives
  back the streak record of the state; a rollover check that detects a boundary for a
  kind leaves \<open>best \<ge> current\<close> for that kind whatever the record was before; from a
  state with \<open>best \<ge> current\<close> the invariant holds after every rollover check (whichever
  render's items it reads) and after every sequence of events; and whenever a rollover
  check changes the stored streak of a kind, up or down to 0, the best streak of the
  kind is the larger of the old best and the new streak.
\<close>

theorem streak_record_invariant:
  "(streaksOk (loadSectionStreaks sto) \<longleftrightarrow>
      (case mhc_section_streaks_v1 sto of
         Absent \<Rightarrow> True | Corrupt \<Rightarrow> True | Parsed s \<Rightarrow> storedStreaksOk s)) \<and>
   loadSectionStreaks (persist st sto) = sectionStreaks st \<and>
   (boundary tz its now p \<longrightarrow>
      current (sectionStreaks (rollover tz its now st)) p
        \<le> best (sectionStreaks (rollover tz its now st)) p) \<and>
   (streaksOk (sectionStreaks st) \<longrightarrow>
      streaksOk (sectionStreaks (rollover tz its now st)) \<and>
      streaksOk (sectionStreaks (run tz st evs))) \<and>
   (current (sectionStreaks (rollover tz its now st)) p \<noteq> current (sectionStreaks st) p \<longrightarrow>
      best (sectionStreaks (rollover tz its now st)) p =
        max (best (sectionStreaks st) p)
            (current (sectionStreaks (rollover tz its now st)) p))"
proof -
  have a: "streaksOk (loadSectionStreaks sto) \<longleftrightarrow>
      (case mhc_section_streaks_v1 sto of
         Absent \<Rightarrow> True | Corrupt \<Rightarrow> True | Parsed s \<Rightarrow> storedStreaksOk s)"
    by (rule load_streaksOk_iff)
  have b: "loadSectionStreaks (persist st sto) = sectionStreaks st"
    by (simp add: persist_def load_save_streaks)
  have c: "boundary tz its now p \<longrightarrow>
      current (sectionStreaks (rollover tz its now st)) p
        \<le> best (sectionStreaks (rollover tz its now st)) p"
    by (simp add: rollover_boundary_ok)
  have d: "streaksOk (sectionStreaks st) \<longrightarrow>
      streaksOk (sectionStreaks (rollover tz its now st)) \<and>
      streaksOk (sectionStreaks (run tz st evs))"
    by (simp add: rollover_streaksOk run_streaksOk)
  have e: "current (sectionStreaks (rollover tz its now st)) p \<noteq> current (sectionStreaks st) p \<longrightarrow>
      best (sectionStreaks (rollover tz its now st)) p =
        max (best (sectionStreaks st) p)
            (current (sectionStreaks (rollover tz its now st)) p)"
    by (simp add: rollover_changes_best)
  from a b c d e show ?thesis by blast
qed

theorem streak_record_invariant_witness:
  "streaksOk (sectionStreaks brokenState) \<and>
   streaksOk (loadSectionStreaks (persist brokenState emptyStorage)) \<and>
   boundary (fixedOffset 0) (items brokenState) 20517 Daily \<and>
   current (sectionStreaks (rollover (fixedOffset 0) (items brokenState) 20517 brokenState))
     Daily = 0 \<and>
   best (sectionStreaks (rollover (fixedOffset 0) (items brokenState) 20517 brokenState))
     Daily = 4 \<and>
   streaksOk (sectionStreaks
     (rollover (fixedOffset 0) (items brokenState) 20517 brokenState)) \<and>
   streaksOk (sectionStreaks (run (fixedOffset 0) brokenState [Refocus 20517, Reload 20518]))"
proof -
  have ok: "streaksOk (sectionStreaks brokenState)"
    by (simp add: brokenState_def streaksOk_def)
  have b: "boundary (fixedOffset 0) (items brokenState) 20517 Daily"
    by code_simp
  have c: "current (sectionStreaks
      (rollover (fixedOffset 0) (items brokenState) 20517 brokenState)) Daily = 0"
    by code_simp
  have c0: "current (sectionStreaks brokenState) Daily = 4"
    "best (sectionStreaks brokenState) Daily = 4"
    by (simp_all add: brokenState_def current_def best_def)
  from streak_record_invariant [where sto = emptyStorage and tz = "fixedOffset 0"
      and evs = "[Refocus 20517, Reload 20518]" and st = brokenState
      and its = "items brokenState" and now = 20517 and p = Daily] ok b c c0
  show ?thesis by simp
qed

section \<open>The weekly period key\<close>

subsection \<open>Calendar and number formatting\<close>

lemma MonthFromDay_range: "0 \<le> MonthFromDay n \<and> MonthFromDay n \<le> 11"
  by (simp add: MonthFromDay_def Let_def)

lemma MakeDay_same_month:
  "MakeDay (YearFromDay n) (MonthFromDay n) dt = n - DateFromDay n + dt"
proof -
  from MonthFromDay_range [of n]
  have "MonthFromDay n div 12 = 0" "MonthFromDay n mod 12 = MonthFromDay n"
    by simp_all
  then show ?thesis
    by (simp add: MakeDay_def DateFromDay_def DayWithinYear_def InLeapYear_def Let_def)
qed

lemma setDate_getDate: "setDate date (getDate date + k) = date + k"
  by (simp add: setDate_def getDate_def MakeDay_same_month)

lemma newDate_fields:
  "100 \<le> YearFromDay d \<Longrightarrow>
   newDate (getFullYear d) (getMonth d) (getDate d) = d"
  by (simp add: newDate_def getFullYear_def getMonth_def getDate_def MakeDay_same_month)

lemma newDate_yearStart:
  "100 \<le> y \<Longrightarrow> newDate y 0 1 = DayFromYear y"
  by (simp add: newDate_def MakeDay_def MonthStart_def)

lemma thursday_of_week:
  "d + (4 - (if WeekDay d = 0 then 7 else WeekDay d)) = 7 * isoWeekIndex d"
  unfolding WeekDay_def isoWeekIndex_def by presburger

lemma fixed_days:
  "(getTime (fixedOffset off) t - getTime (fixedOffset off) s) div 86400000 + 1 = t - s + 1"
proof -
  have "getTime (fixedOffset off) t - getTime (fixedOffset off) s = (t - s) * 86400000"
    by (simp add: getTime_def fixedOffset_def algebra_simps)
  then show ?thesis by simp
qed

lemma div_bounds:
  fixes a k :: int
  assumes "0 < k"
  shows "k * (a div k) \<le> a" "a < k * (a div k) + k"
proof -
  have "a = k * (a div k) + a mod k" by simp
  moreover from assms have "0 \<le> a mod k" "a mod k < k" by simp_all
  ultimately show "k * (a div k) \<le> a" "a < k * (a div k) + k" by linarith+
qed

lemma est_hi_aux:
  fixes n q a b c :: int
  assumes "400 * n < 146097 * q + 146097"
    and "q + 3 < 4 * a + 4"
    and "100 * b \<le> q + 71"
    and "q + 371 < 400 * c + 400"
  shows "n < 365 * (q + 2) + a - b + c"
  using assms by simp

lemma est_hi: "n < DayFromYear (1972 + (400 * n) div 146097)"
proof -
  define q where "q = (400 * n) div 146097"
  have 1: "400 * n < 146097 * q + 146097"
    unfolding q_def using div_bounds(2) [of 146097 "400 * n"] by simp
  have 2: "q + 3 < 4 * ((q + 3) div 4) + 4"
    using div_bounds(2) [of 4 "q + 3"] by simp
  have 3: "100 * ((q + 71) div 100) \<le> q + 71"
    using div_bounds(1) [of 100 "q + 71"] by simp
  have 4: "q + 371 < 400 * ((q + 371) div 400) + 400"
    using div_bounds(2) [of 400 "q + 371"] by simp
  have "DayFromYear (1972 + q) =
      365 * (q + 2) + (q + 3) div 4 - (q + 71) div 100 + (q + 371) div 400"
    by (simp add: DayFromYear_def algebra_simps)
  with est_hi_aux [OF 1 2 3 4] show ?thesis
    by (simp add: q_def)
qed

lemma YearFromDay_upper: "n < DayFromYear (YearFromDay n + 1)"
  using est_hi [of n] by (simp add: YearFromDay_def Let_def add.commute)

lemma DayFromYear_mono_aux:
  fixes a b a4 b4 a1 b1 a0 b0 :: int
  assumes "a \<le> b" "a4 \<le> b4" "a0 \<le> b0" "b1 \<le> a1 + (b - a)"
  shows "365 * (a - 1970) + a4 - a1 + a0 \<le> 365 * (b - 1970) + b4 - b1 + b0"
  using assms by simp

lemma div_add_le:
  fixes x k :: int
  assumes "0 \<le> k"
  shows "(x + k) div 100 \<le> x div 100 + k"
proof -
  have "(x + k) div 100 \<le> (x + k * 100) div 100"
    using assms by (intro zdiv_mono1) simp_all
  also have "\<dots> = x div 100 + k" by simp
  finally show ?thesis .
qed

lemma DayFromYear_mono:
  assumes "a \<le> b"
  shows "DayFromYear a \<le> DayFromYear b"
proof -
  have 1: "(a - 1969) div 4 \<le> (b - 1969) div 4"
    using assms by (intro zdiv_mono1) simp_all
  have 2: "(a - 1601) div 400 \<le> (b - 1601) div 400"
    using assms by (intro zdiv_mono1) simp_all
  have "(a - 1901 + (b - a)) div 100 \<le> (a - 1901) div 100 + (b - a)"
    using assms by (intro div_add_le) simp
  then have 3: "(b - 1901) div 100 \<le> (a - 1901) div 100 + (b - a)"
    by (simp add: algebra_simps)
  from DayFromYear_mono_aux [OF assms 1 2 3] show ?thesis
    by (simp add: DayFromYear_def)
qed

lemma YearFromDay_ge:
  assumes "DayFromYear y \<le> n"
  shows "y \<le> YearFromDay n"
proof (rule ccontr)
  assume "\<not> y \<le> YearFromDay n"
  then have "YearFromDay n + 1 \<le> y" by simp
  then have "DayFromYear (YearFromDay n + 1) \<le> DayFromYear y"
    by (rule DayFromYear_mono)
  with assms YearFromDay_upper [of n] show False by linarith
qed

lemma digit_in: "d < 10 \<Longrightarrow> digit d \<in> set ''0123456789''"
  unfolding digit_def by (rule nth_mem) simp

lemma digits_set: "set (digits n) \<subseteq> set ''0123456789''"
proof (induction n rule: digits.induct)
  case (1 n)
  show ?case
  proof (cases "n < 10")
    case True
    then show ?thesis
      using digit_in [of n] by (subst digits.simps) simp
  next
    case False
    then have "n mod 10 < 10" by simp
    with False 1 digit_in [of "n mod 10"] show ?thesis
      by (subst digits.simps) simp
  qed
qed

lemma digit_inj: "d < 10 \<Longrightarrow> e < 10 \<Longrightarrow> digit d = digit e \<Longrightarrow> d = e"
proof -
  have "distinct ''0123456789''" by simp
  then show "d < 10 \<Longrightarrow> e < 10 \<Longrightarrow> digit d = digit e \<Longrightarrow> d = e"
    unfolding digit_def by (simp add: nth_eq_iff_index_eq)
qed

lemma digits_not_Nil: "digits n \<noteq> []"
  by (subst digits.simps) simp

lemma digits_inj: "digits m = digits n \<Longrightarrow> m = n"
proof (induction m arbitrary: n rule: digits.induct)
  case (1 m)
  show ?case
  proof (cases "m < 10")
    case m: True
    show ?thesis
    proof (cases "n < 10")
      case True
      with m 1(2) show ?thesis
        by (simp add: digits.simps [of m] digits.simps [of n] digit_inj)
    next
      case False
      with m 1(2) digits_not_Nil [of "n div 10"] show ?thesis
        by (simp add: digits.simps [of m] digits.simps [of n] Cons_eq_append_conv)
    qed
  next
    case m: False
    show ?thesis
    proof (cases "n < 10")
      case True
      with m 1(2) digits_not_Nil [of "m div 10"] show ?thesis
        by (simp add: digits.simps [of m] digits.simps [of n] append_eq_Cons_conv)
    next
      case False
      with m 1(2) have e: "digits (m div 10) = digits (n div 10)" "digit (m mod 10) = digit (n mod 10)"
        by (simp_all add: digits.simps [of m] digits.simps [of n])
      from 1(1) [OF m e(1)] have d: "m div 10 = n div 10" .
      from e(2) have r: "m mod 10 = n mod 10"
        by (intro digit_inj) simp_all
      have "m = 10 * (m div 10) + m mod 10" by simp
      also have "\<dots> = 10 * (n div 10) + n mod 10" using d r by simp
      also have "\<dots> = n" by simp
      finally show ?thesis .
    qed
  qed
qed

lemma digits_no_minus: "CHR ''-'' \<notin> set (digits k)"
proof
  assume "CHR ''-'' \<in> set (digits k)"
  with digits_set [of k] have "CHR ''-'' \<in> set ''0123456789''" by (rule subsetD)
  then show False by simp
qed

lemma digits_no_W: "CHR ''W'' \<notin> set (digits k)"
proof
  assume "CHR ''W'' \<in> set (digits k)"
  with digits_set [of k] have "CHR ''W'' \<in> set ''0123456789''" by (rule subsetD)
  then show False by simp
qed

lemma String_no_W: "CHR ''W'' \<notin> set (String k)"
  by (simp add: String_def digits_no_W)

lemma String_inj: "String a = String b \<Longrightarrow> a = b"
proof -
  assume e: "String a = String b"
  show ?thesis
  proof (cases "a < 0")
    case a: True
    show ?thesis
    proof (cases "b < 0")
      case True
      with a e have "digits (nat (- a)) = digits (nat (- b))" by (simp add: String_def)
      then have "nat (- a) = nat (- b)" by (rule digits_inj)
      with a True show ?thesis by simp
    next
      case False
      with a e have "CHR ''-'' # digits (nat (- a)) = digits (nat b)"
        by (simp add: String_def)
      then have "CHR ''-'' \<in> set (digits (nat b))"
        by (metis list.set_intros(1))
      with digits_no_minus show ?thesis by simp
    qed
  next
    case a: False
    show ?thesis
    proof (cases "b < 0")
      case True
      with a e have "digits (nat a) = CHR ''-'' # digits (nat (- b))"
        by (simp add: String_def)
      then have "CHR ''-'' \<in> set (digits (nat a))"
        by simp
      with digits_no_minus show ?thesis by simp
    next
      case False
      with a e have "digits (nat a) = digits (nat b)" by (simp add: String_def)
      then have "nat a = nat b" by (rule digits_inj)
      with a False show ?thesis by simp
    qed
  qed
qed


lemma week_key_inj:
  assumes "String y1 @ ''-W'' @ String w1 = String y2 @ ''-W'' @ String w2"
  shows "y1 = y2 \<and> w1 = w2"
proof -
  have nw: "CHR ''W'' \<notin> set (String k @ ''-'')" for k
    by (simp add: String_no_W)
  from assms have "(String y1 @ ''-'') @ CHR ''W'' # String w1 =
      (String y2 @ ''-'') @ CHR ''W'' # String w2"
    by simp
  then have "String y1 @ ''-'' = String y2 @ ''-'' \<and> String w1 = String w2"
    by (rule append_Cons_eq_iff [OF nw String_no_W, THEN iffD1])
  then show ?thesis by (simp add: String_inj)
qed

lemma est_lo_aux:
  fixes n q a b c :: int
  assumes "146097 * q \<le> 400 * n"
    and "4 * a \<le> q"
    and "q + 68 < 100 * b + 100"
    and "400 * c \<le> q + 368"
  shows "365 * (q - 1) + a - b + c \<le> n"
  using assms by simp

lemma est_lo: "DayFromYear (1969 + (400 * n) div 146097) \<le> n"
proof -
  define q where "q = (400 * n) div 146097"
  have 1: "146097 * q \<le> 400 * n"
    unfolding q_def using div_bounds(1) [of 146097 "400 * n"] by simp
  have 2: "4 * (q div 4) \<le> q"
    using div_bounds(1) [of 4 q] by simp
  have 3: "q + 68 < 100 * ((q + 68) div 100) + 100"
    using div_bounds(2) [of 100 "q + 68"] by simp
  have 4: "400 * ((q + 368) div 400) \<le> q + 368"
    using div_bounds(1) [of 400 "q + 368"] by simp
  have "DayFromYear (1969 + q) =
      365 * (q - 1) + q div 4 - (q + 68) div 100 + (q + 368) div 400"
    by (simp add: DayFromYear_def algebra_simps)
  with est_lo_aux [OF 1 2 3 4] show ?thesis
    by (simp add: q_def)
qed

lemma YearFromDay_lower: "DayFromYear (YearFromDay n) \<le> n"
  using est_lo [of n] by (simp add: YearFromDay_def Let_def)

lemma YearFromDay_bounds:
  "DayFromYear (YearFromDay n) \<le> n \<and> n < DayFromYear (YearFromDay n + 1)"
  by (simp add: YearFromDay_lower YearFromDay_upper)

lemma YearFromDay_unique:
  assumes "DayFromYear y \<le> n" and "n < DayFromYear (y + 1)"
  shows "YearFromDay n = y"
proof -
  from assms(1) have "y \<le> YearFromDay n" by (rule YearFromDay_ge)
  moreover have "YearFromDay n \<le> y"
  proof (rule ccontr)
    assume "\<not> YearFromDay n \<le> y"
    then have "y + 1 \<le> YearFromDay n" by simp
    then have "DayFromYear (y + 1) \<le> DayFromYear (YearFromDay n)" by (rule DayFromYear_mono)
    with assms(2) YearFromDay_lower [of n] show False by linarith
  qed
  ultimately show ?thesis by simp
qed

subsection \<open>Zones with a constant offset\<close>

text \<open>
  In a time zone whose offset from UTC never changes, the weekly key is the ISO week:
  from 4 January of the year 100 on (below the year 100 the \<^verbatim>\<open>Date\<close> constructor reads
  the year as 19xx), two local days receive the same key exactly when they lie in the
  same Monday-to-Sunday week. The key is the year of the week's Thursday followed by the
  number of that Thursday's week within its year.
\<close>

lemma thursday_lower: "d - 3 \<le> 7 * isoWeekIndex d"
  using div_bounds(2) [of 7 "d + 3"] by (simp add: isoWeekIndex_def)

lemma getISOWeek_fixedOffset:
  assumes "DayFromYear 100 + 3 \<le> d"
  shows "getISOWeek (fixedOffset off) d =
           String (YearFromDay (7 * isoWeekIndex d)) @ ''-W'' @
           String (- ((- (7 * isoWeekIndex d
                          - DayFromYear (YearFromDay (7 * isoWeekIndex d)) + 1)) div 7))"
proof -
  define t where "t = 7 * isoWeekIndex d"
  from assms have "DayFromYear 100 \<le> d" by simp
  then have yd: "100 \<le> YearFromDay d" by (rule YearFromDay_ge)
  from assms thursday_lower [of d] have "DayFromYear 100 \<le> t" by (simp add: t_def)
  then have yt: "100 \<le> YearFromDay t" by (rule YearFromDay_ge)
  have d0: "newDate (getFullYear d) (getMonth d) (getDate d) = d"
    using yd by (rule newDate_fields)
  have th: "setDate d (getDate d + (4 - (if getDay d = 0 then 7 else getDay d))) = t"
    unfolding setDate_getDate getDay_def t_def by (rule thursday_of_week)
  have ys: "newDate (getFullYear t) 0 1 = DayFromYear (YearFromDay t)"
    using yt by (simp add: newDate_yearStart getFullYear_def)
  show ?thesis
    unfolding getISOWeek_def Let_def d0 th ys fixed_days
    by (simp add: getFullYear_def t_def)
qed

lemma week_number_shift:
  fixes w s :: int
  shows "(- (7 * w - s + 1)) div 7 = - w + (s - 1) div 7"
proof -
  have eq: "- (7 * w - s + 1) = (s - 1) + (- w) * 7" by simp
  have "(- (7 * w - s + 1)) div 7 = ((s - 1) + (- w) * 7) div 7"
    by (simp only: eq)
  also have "\<dots> = - w + (s - 1) div 7"
    by (rule div_mult_self1) simp
  finally show ?thesis .
qed

lemma week_number_inj:
  fixes wa wb s :: int
  assumes "- ((- (7 * wa - s + 1)) div 7) = - ((- (7 * wb - s + 1)) div 7)"
  shows "wa = wb"
proof -
  from assms have "- (- wa + (s - 1) div 7) = - (- wb + (s - 1) div 7)"
    by (simp only: week_number_shift)
  then show ?thesis by simp
qed

lemma getISOWeek_fixedOffset_iff:
  assumes "DayFromYear 100 + 3 \<le> a" and "DayFromYear 100 + 3 \<le> b"
  shows "getISOWeek (fixedOffset off) a = getISOWeek (fixedOffset off) b \<longleftrightarrow> sameISOWeek a b"
proof
  assume "sameISOWeek a b"
  then show "getISOWeek (fixedOffset off) a = getISOWeek (fixedOffset off) b"
    by (simp add: getISOWeek_fixedOffset [OF assms(1)] getISOWeek_fixedOffset [OF assms(2)]
        sameISOWeek_def)
next
  assume e: "getISOWeek (fixedOffset off) a = getISOWeek (fixedOffset off) b"
  let ?ta = "7 * isoWeekIndex a" and ?tb = "7 * isoWeekIndex b"
  from e have c: "YearFromDay ?ta = YearFromDay ?tb \<and>
      - ((- (?ta - DayFromYear (YearFromDay ?ta) + 1)) div 7) =
      - ((- (?tb - DayFromYear (YearFromDay ?tb) + 1)) div 7)"
    unfolding getISOWeek_fixedOffset [OF assms(1)] getISOWeek_fixedOffset [OF assms(2)]
    by (rule week_key_inj)
  from c have y: "YearFromDay ?ta = YearFromDay ?tb" by (rule conjunct1)
  from c have w: "- ((- (?ta - DayFromYear (YearFromDay ?ta) + 1)) div 7) =
      - ((- (?tb - DayFromYear (YearFromDay ?tb) + 1)) div 7)" by (rule conjunct2)
  from w [unfolded y] have "isoWeekIndex a = isoWeekIndex b" by (rule week_number_inj)
  then show "sameISOWeek a b" by (simp add: sameISOWeek_def)
qed

subsection \<open>Zones with daylight saving time\<close>

text \<open>
  Claim C8 (weekly period key), at the input where the code departs from it. In US
  Eastern time, Thursday 5 March 2026 and Thursday 12 March 2026 lie in different ISO
  weeks (10 and 11) and receive the same key \<open>2026-W10\<close>: the local midnight of
  12 March is in daylight saving time, 70 days less one hour after the local midnight
  of 1 January, and \<^verbatim>\<open>Math.floor\<close> of the elapsed milliseconds over 86400000 makes
  that 69 days, so \<^verbatim>\<open>days\<close> is 70 and \<^verbatim>\<open>weekNo\<close> is 10 instead of 11.
\<close>

theorem weekly_key_collision:
  "getISOWeek easternTime2026 (MakeDay 2026 2 5) = ''2026-W10'' \<and>
   getISOWeek easternTime2026 (MakeDay 2026 2 12) = ''2026-W10'' \<and>
   \<not> sameISOWeek (MakeDay 2026 2 5) (MakeDay 2026 2 12)"
  by code_simp

text \<open>
  The consequence for the rollover: a weekly counter whose key was set on Monday 2 March
  2026 sees no boundary on Monday 9 March 2026 in US Eastern time, while it does in a
  zone that stays at UTC-5.
\<close>

lemma weekly_rollover_missed:
  "\<not> boundary easternTime2026
       [exampleItemB\<lparr>item_periodKey := periodKey easternTime2026 Weekly (MakeDay 2026 2 2)\<rparr>]
       (MakeDay 2026 2 9) Weekly"
  by code_simp

lemma weekly_rollover_fixedOffset:
  "boundary (fixedOffset (- 18000000))
       [exampleItemB\<lparr>item_periodKey := periodKey (fixedOffset (- 18000000)) Weekly (MakeDay 2026 2 2)\<rparr>]
       (MakeDay 2026 2 9) Weekly"
  by code_simp

end
